theory Spec2Isabelle
  imports Complex_Main "HOL-Library.Word"
begin

unbundle bit_operations_syntax

text \<open>
  A model of the sketch that draws a Fourier series as a chain of epicycles. Of the
  versions of the sketch the latest is modelled, the one with the selectable waveform:
  its generators \<open>squareWave\<close>, \<open>sawWave\<close> and \<open>lolWave\<close>, the lookup \<open>waveForm\<close>, the
  chain builder \<open>epicycles\<close>, the segments \<open>radialLines\<close>, and the frame \<open>draw\<close> with the
  trajectory of the pencil tip. Vectors are modelled by their \<open>x\<close> and \<open>y\<close> components,
  the third component being 0 throughout; painting is left out. The source's names are
  kept, except that its variables \<open>o\<close> and \<open>wf\<close> are written \<open>o'\<close> and \<open>wf'\<close>, and its
  parameter \<open>pos\<close> is written \<open>p\<close>.
\<close>

section \<open>Numbers of the host language\<close>

text \<open>
  The sketch computes with the host language's \<open>number\<close> type. It is modelled by the
  reals (rounding is not modelled), with the two operators whose meaning differs from the
  mathematical one written out: the remainder \<open>%\<close>, which truncates towards zero, and
  the bitwise operator \<open>^\<close>, which converts both operands to signed 32-bit integers
  (dropping the fraction, wrapping modulo \<open>2 ^ 32\<close>) and combines them bit by bit with
  exclusive or. The remainder is only taken by 2 and by \<open>2 \<pi>\<close>, never by 0.
\<close>

definition js_trunc :: "real \<Rightarrow> int" where
  "js_trunc v = (if v < 0 then \<lceil>v\<rceil> else \<lfloor>v\<rfloor>)"

definition js_rem :: "real \<Rightarrow> real \<Rightarrow> real" where
  "js_rem a b = a - b * real_of_int (js_trunc (a / b))"

definition ToInt32 :: "real \<Rightarrow> 32 word" where
  "ToInt32 v = word_of_int (js_trunc v)"

definition js_xor :: "real \<Rightarrow> real \<Rightarrow> real" where
  "js_xor a b = real_of_int (sint (ToInt32 a XOR ToInt32 b))"

datatype error = TypeError

text \<open>Reading \<open>xs[i]\<close> and then a property of it: outside the array the element is
  \<open>undefined\<close> and the property access throws.\<close>

definition index :: "'a list \<Rightarrow> int \<Rightarrow> error + 'a" where
  "index xs i = (if 0 \<le> i \<and> i < int (length xs) then Inr (xs ! nat i) else Inl TypeError)"

section \<open>Math domain\<close>

definition SCALE :: real where
  "SCALE = 69"

definition DT :: real where
  "DT = 0.0125"

definition PI :: real where
  "PI = pi"

definition TWO_PI :: real where
  "TWO_PI = 2 * pi"

record Wave =
  amplitude :: real
  angularVelocity :: real
  initialOffset :: real

type_synonym Octave = nat

type_synonym WaveForm = "Octave \<Rightarrow> Wave"

definition squareWave :: WaveForm where
  "squareWave o' =
     (let k = 2 * real o' + 1
      in \<lparr>amplitude = (SCALE * 4) / (k * PI), angularVelocity = k, initialOffset = 0\<rparr>)"

definition sawWave :: WaveForm where
  "sawWave o' =
     (let k = real o' + 1;
          sign = (if js_rem k 2 = 0 then 1 else - 1)
      in \<lparr>amplitude = (SCALE * 2) / (sign * k * PI), angularVelocity = 2 * k,
          initialOffset = 0\<rparr>)"

definition lolWave :: WaveForm where
  "lolWave o' =
     (let k = 2 * (real o' + 1)
      in \<lparr>amplitude = (SCALE * 4) / (k * PI), angularVelocity = js_xor k (js_xor 2.71 k),
          initialOffset = 0\<rparr>)"

definition wfs :: "(string \<times> WaveForm) list" where
  "wfs = [(''square'', squareWave), (''sawtooth'', sawWave), (''sin'', lolWave)]"

definition waveForm :: "string \<Rightarrow> WaveForm" where
  "waveForm name = (case map_of wfs name of Some wf' \<Rightarrow> wf' | None \<Rightarrow> squareWave)"

section \<open>Animation domain\<close>

type_synonym Time = real

definition incrementTime :: "Time \<Rightarrow> real \<Rightarrow> Time" where
  "incrementTime t dt = js_rem (t + dt) TWO_PI"

record Vector =
  x :: real
  y :: real

definition createVector :: "real \<Rightarrow> real \<Rightarrow> Vector" where
  "createVector a b = \<lparr>x = a, y = b\<rparr>"

record Epicycle =
  pos :: Vector
  wave :: Wave

definition nextEpicylePos :: "Time \<Rightarrow> Epicycle \<Rightarrow> Vector" where
  "nextEpicylePos t e =
     (let theta = t * angularVelocity (wave e) + initialOffset (wave e)
      in createVector (amplitude (wave e) * cos (- theta) + x (pos e))
                      (amplitude (wave e) * sin (- theta) + y (pos e)))"

text \<open>
  The recursive builder. The array \<open>epis\<close> is extended by \<open>push\<close> and handed to the
  recursive call; the recursion stops only when its length equals \<open>n\<close>, so a call that
  never reaches that length does not return: its value is \<open>None\<close>.
\<close>

partial_function (option) epicyclesRecurse ::
  "Time \<Rightarrow> int \<Rightarrow> WaveForm \<Rightarrow> Vector \<Rightarrow> Epicycle list \<Rightarrow> Epicycle list option" where
  "epicyclesRecurse t n wf' p epis =
     (if int (length epis) = n then Some epis
      else let o' = length epis;
               epi = \<lparr>pos = p, wave = wf' o'\<rparr>
           in epicyclesRecurse t n wf' (nextEpicylePos t epi) (epis @ [epi]))"

definition epicycles :: "Time \<Rightarrow> int \<Rightarrow> WaveForm \<Rightarrow> Epicycle list option" where
  "epicycles t n wf' = epicyclesRecurse t n wf' (createVector 0 0) []"

record RadialLine =
  p1 :: Vector
  p2 :: Vector

function radialLines_loop ::
  "Time \<Rightarrow> Epicycle list \<Rightarrow> nat \<Rightarrow> RadialLine list \<Rightarrow> error + RadialLine list" where
  "radialLines_loop t epis i radials =
     (if i < length epis then
        (case index epis (int i) of
           Inl e \<Rightarrow> Inl e
         | Inr ei \<Rightarrow>
             (if int i = int (length epis) - 1
              then radialLines_loop t epis (i + 1)
                     (radials @ [\<lparr>p1 = pos ei, p2 = nextEpicylePos t ei\<rparr>])
              else (case index epis (int i + 1) of
                      Inl e \<Rightarrow> Inl e
                    | Inr ej \<Rightarrow>
                        radialLines_loop t epis (i + 1)
                          (radials @ [\<lparr>p1 = pos ei, p2 = pos ej\<rparr>]))))
      else Inr radials)"
  by pat_completeness auto
termination
  by (relation "measure (\<lambda>(t, epis, i, radials). length epis - i)") auto

declare radialLines_loop.simps [simp del]

definition radialLines :: "Time \<Rightarrow> Epicycle list \<Rightarrow> error + RadialLine list" where
  "radialLines t epis = radialLines_loop t epis 0 []"

section \<open>The trajectory and the simulation step\<close>

type_synonym Trajectory = "Vector list"

text \<open>\<open>unshift\<close> followed by the conditional \<open>pop\<close>, for a capacity \<open>c\<close>
  (\<open>512\<close> in \<open>draw\<close>).\<close>

definition trajectory_push :: "nat \<Rightarrow> 'a \<Rightarrow> 'a list \<Rightarrow> 'a list" where
  "trajectory_push c v traj =
     (let traj1 = v # traj
      in if length traj1 > c then butlast traj1 else traj1)"

record State =
  time :: Time
  trajectory :: Trajectory
  wfPrevious :: string

text \<open>The globals as the set-up hook leaves them.\<close>

definition initial_state :: State where
  "initial_state = \<lparr>time = 0, trajectory = [], wfPrevious = ''square''\<rparr>"

text \<open>
  One frame. The values read from the slider and the select are the arguments
  \<open>octaves\<close> and \<open>wf'\<close>; the calls that only paint are left out. The result is
  \<open>None\<close> when the chain builder does not return and \<open>Inl\<close> when the frame throws; the
  animation stops there, so the globals of such a frame are not kept.
\<close>

definition draw :: "int \<Rightarrow> string \<Rightarrow> State \<Rightarrow> (error + State) option" where
  "draw octaves wf' s =
     (let traj0 = (if wf' \<noteq> wfPrevious s then [] else trajectory s)
      in case epicycles (time s) octaves (waveForm wf') of
           None \<Rightarrow> None
         | Some epis \<Rightarrow>
             (case radialLines (time s) epis of
                Inl e \<Rightarrow> Some (Inl e)
              | Inr radials \<Rightarrow>
                  (case index radials (int (length radials) - 1) of
                     Inl e \<Rightarrow> Some (Inl e)
                   | Inr r \<Rightarrow>
                       Some (Inr \<lparr>time = incrementTime (time s) DT,
                                  trajectory = trajectory_push 512 (p2 r) traj0,
                                  wfPrevious = wf'\<rparr>))))"

text \<open>The frames of a session, one after the other, for the values read in each frame;
  a frame that throws or does not return ends the session.\<close>

fun run :: "(int \<times> string) list \<Rightarrow> State \<Rightarrow> (error + State) option" where
  "run [] s = Some (Inr s)"
| "run ((octaves, wf') # ins) s =
     (case draw octaves wf' s of
        None \<Rightarrow> None
      | Some (Inl e) \<Rightarrow> Some (Inl e)
      | Some (Inr s') \<Rightarrow> run ins s')"

section \<open>Auxiliary definitions\<close>

text \<open>
  The chain of \<open>m\<close> epicycles that starts with octave \<open>k\<close> at the centre \<open>p\<close>, by
  structural recursion. It is not part of the sketch: the builder is shown to compute it,
  and the properties of the chain are proved on it.
\<close>

fun chain_from :: "Time \<Rightarrow> WaveForm \<Rightarrow> Vector \<Rightarrow> nat \<Rightarrow> nat \<Rightarrow> Epicycle list" where
  "chain_from t wf' p k 0 = []"
| "chain_from t wf' p k (Suc m) =
     \<lparr>pos = p, wave = wf' k\<rparr>
       # chain_from t wf' (nextEpicylePos t \<lparr>pos = p, wave = wf' k\<rparr>) (Suc k) m"

text \<open>Segment \<open>j\<close> of a chain, as the loop of \<open>radialLines\<close> builds it.\<close>

definition segment :: "Time \<Rightarrow> Epicycle list \<Rightarrow> nat \<Rightarrow> RadialLine" where
  "segment t epis j =
     \<lparr>p1 = pos (epis ! j),
      p2 = (if Suc j = length epis then nextEpicylePos t (epis ! j) else pos (epis ! Suc j))\<rparr>"

text \<open>
  The angular velocity of the harmonic-overtone generator as the specification words it:
  the harmonic index combined bitwise with the power \<open>2.71\<close> raised to the index. It
  is compared with what \<open>lolWave\<close> returns.
\<close>

definition overtone_angularVelocity_spec :: "Octave \<Rightarrow> real" where
  "overtone_angularVelocity_spec o' = (let k = 2 * (o' + 1) in js_xor (real k) (2.71 ^ k))"

text \<open>The components of the rotation vector of a wave at time \<open>t\<close>: its amplitude
  times the cosine and the sine of the negated angle.\<close>

definition rot_x :: "Time \<Rightarrow> Wave \<Rightarrow> real" where
  "rot_x t w = amplitude w * cos (- (t * angularVelocity w + initialOffset w))"

definition rot_y :: "Time \<Rightarrow> Wave \<Rightarrow> real" where
  "rot_y t w = amplitude w * sin (- (t * angularVelocity w + initialOffset w))"

text \<open>The sum of the rotation vectors of the octaves \<open>0\<close> to \<open>n - 1\<close>.\<close>

definition pencil_tip :: "Time \<Rightarrow> int \<Rightarrow> WaveForm \<Rightarrow> Vector" where
  "pencil_tip t n wf' =
     createVector (\<Sum>j < nat n. rot_x t (wf' j)) (\<Sum>j < nat n. rot_y t (wf' j))"

text \<open>
  An instrumented copy of the simulation step, to state which identifier a point of the
  trajectory was traced under: each point is stored with the identifier selected in the
  frame that pushed it. Nothing else differs from \<open>draw\<close>, and \<open>untrace\<close> forgets the
  identifiers.
\<close>

record TracedState =
  ttime :: Time
  ttrajectory :: "(string \<times> Vector) list"
  twfPrevious :: string

definition untrace :: "TracedState \<Rightarrow> State" where
  "untrace ts =
     \<lparr>time = ttime ts, trajectory = map snd (ttrajectory ts), wfPrevious = twfPrevious ts\<rparr>"

definition initial_traced :: TracedState where
  "initial_traced = \<lparr>ttime = 0, ttrajectory = [], twfPrevious = ''square''\<rparr>"

definition draw_traced :: "int \<Rightarrow> string \<Rightarrow> TracedState \<Rightarrow> (error + TracedState) option" where
  "draw_traced octaves wf' ts =
     (let traj0 = (if wf' \<noteq> twfPrevious ts then [] else ttrajectory ts)
      in case epicycles (ttime ts) octaves (waveForm wf') of
           None \<Rightarrow> None
         | Some epis \<Rightarrow>
             (case radialLines (ttime ts) epis of
                Inl e \<Rightarrow> Some (Inl e)
              | Inr radials \<Rightarrow>
                  (case index radials (int (length radials) - 1) of
                     Inl e \<Rightarrow> Some (Inl e)
                   | Inr r \<Rightarrow>
                       Some (Inr \<lparr>ttime = incrementTime (ttime ts) DT,
                                  ttrajectory = trajectory_push 512 (wf', p2 r) traj0,
                                  twfPrevious = wf'\<rparr>))))"

fun run_traced :: "(int \<times> string) list \<Rightarrow> TracedState \<Rightarrow> (error + TracedState) option" where
  "run_traced [] ts = Some (Inr ts)"
| "run_traced ((octaves, wf') # ins) ts =
     (case draw_traced octaves wf' ts of
        None \<Rightarrow> None
      | Some (Inl e) \<Rightarrow> Some (Inl e)
      | Some (Inr ts') \<Rightarrow> run_traced ins ts')"

section \<open>Numbers: truncation and exclusive or\<close>

lemma js_trunc_of_int: "js_trunc (real_of_int i) = i"
  by (simp add: js_trunc_def)

lemma ToInt32_of_int: "ToInt32 (real_of_int i) = word_of_int i"
  by (simp add: ToInt32_def js_trunc_of_int)

lemma ToInt32_271: "ToInt32 2.71 = 2"
  by (simp add: ToInt32_def js_trunc_def)

lemma ToInt32_signed: "ToInt32 (signed w) = w"
proof -
  have "(signed w :: real) = real_of_int (sint w)" by simp
  then have "ToInt32 (signed w) = word_of_int (sint w)"
    by (simp only: ToInt32_of_int)
  then show ?thesis by simp
qed

lemma ToInt32_js_xor: "ToInt32 (js_xor a b) = ToInt32 a XOR ToInt32 b"
  by (simp add: js_xor_def ToInt32_signed)

lemma xor_cancel: "(a :: 32 word) XOR (b XOR a) = b"
  by (simp add: xor.commute xor.left_commute)

lemma js_xor_twice: "js_xor k (js_xor c k) = signed (ToInt32 c)"
  unfolding js_xor_def [of k] ToInt32_js_xor by (simp add: xor_cancel)

lemma lolWave_angularVelocity_2: "angularVelocity (lolWave o') = 2"
  by (simp add: lolWave_def Let_def js_xor_twice) (simp add: ToInt32_def js_trunc_def)

lemma overtone_angularVelocity_spec_0: "overtone_angularVelocity_spec 0 = 5"
  by (simp add: overtone_angularVelocity_spec_def Let_def js_xor_def ToInt32_def js_trunc_def
      power2_eq_square)

section \<open>The chain builder\<close>

lemma epicyclesRecurse_chain:
  "epicyclesRecurse t (int (length epis + m)) wf' p epis
     = Some (epis @ chain_from t wf' p (length epis) m)"
proof (induction m arbitrary: p epis)
  case 0
  show ?case by (subst epicyclesRecurse.simps) simp
next
  case (Suc m)
  let ?epi = "\<lparr>pos = p, wave = wf' (length epis)\<rparr>"
  have "epicyclesRecurse t (int (length epis + Suc m)) wf' p epis
      = epicyclesRecurse t (int (length (epis @ [?epi]) + m)) wf' (nextEpicylePos t ?epi)
          (epis @ [?epi])"
    by (subst epicyclesRecurse.simps) (simp add: Let_def)
  also have "\<dots> = Some ((epis @ [?epi])
      @ chain_from t wf' (nextEpicylePos t ?epi) (length (epis @ [?epi])) m)"
    by (rule Suc.IH)
  finally show ?case by simp
qed

lemma epicycles_chain: "0 \<le> n \<Longrightarrow> epicycles t n wf' = Some (chain_from t wf' (createVector 0 0) 0 (nat n))"
  using epicyclesRecurse_chain [of t "[]" "nat n" wf' "createVector 0 0"]
  by (simp add: epicycles_def)

text \<open>A call that returns was started with at most \<open>n\<close> epicycles: the length only grows,
  so a longer array never meets the test for equality.\<close>

lemma epicyclesRecurse_Some_le:
  assumes "epicyclesRecurse t n wf' p epis = Some r"
  shows "int (length epis) \<le> n"
proof (rule epicyclesRecurse.raw_induct
    [where P = "\<lambda>t n wf' p epis r. int (length epis) \<le> n", OF _ assms])
  fix f :: "Time \<Rightarrow> int \<Rightarrow> WaveForm \<Rightarrow> Vector \<Rightarrow> Epicycle list \<Rightarrow> Epicycle list option"
  fix t n wf' p epis r
  assume IH: "\<And>t n wf' p epis r. f t n wf' p epis = Some r \<Longrightarrow> int (length epis) \<le> n"
  assume step: "(if int (length epis) = n then Some epis
      else let o' = length epis; epi = \<lparr>pos = p, wave = wf' o'\<rparr>
           in f t n wf' (nextEpicylePos t epi) (epis @ [epi])) = Some r"
  show "int (length epis) \<le> n"
  proof (cases "int (length epis) = n")
    case True
    then show ?thesis by simp
  next
    case False
    with step have "f t n wf' (nextEpicylePos t \<lparr>pos = p, wave = wf' (length epis)\<rparr>)
        (epis @ [\<lparr>pos = p, wave = wf' (length epis)\<rparr>]) = Some r"
      by (simp add: Let_def)
    from IH [OF this] show ?thesis by simp
  qed
qed

lemma epicyclesRecurse_diverges:
  "n < int (length epis) \<Longrightarrow> epicyclesRecurse t n wf' p epis = None"
  using epicyclesRecurse_Some_le [of t n wf' p epis]
  by (cases "epicyclesRecurse t n wf' p epis") auto

lemma epicycles_negative: "n < 0 \<Longrightarrow> epicycles t n wf' = None"
  by (simp add: epicycles_def epicyclesRecurse_diverges)

lemma length_chain_from: "length (chain_from t wf' p k m) = m"
  by (induction m arbitrary: p k) simp_all

lemma wave_chain_from: "map wave (chain_from t wf' p k m) = map wf' [k..<k + m]"
  by (induction m arbitrary: p k) (simp_all add: upt_rec)

lemma nth_chain_from_wave: "i < m \<Longrightarrow> wave (chain_from t wf' p k m ! i) = wf' (k + i)"
  using arg_cong [OF wave_chain_from [of t wf' p k m], of "\<lambda>ws. ws ! i"]
  by (simp add: length_chain_from)

lemma pos_chain_from_0: "0 < m \<Longrightarrow> pos (chain_from t wf' p k m ! 0) = p"
  by (cases m) simp_all

lemma pos_chain_from_Suc:
  "Suc i < m \<Longrightarrow>
     pos (chain_from t wf' p k m ! Suc i) = nextEpicylePos t (chain_from t wf' p k m ! i)"
proof (induction m arbitrary: p k i)
  case 0
  then show ?case by simp
next
  case (Suc m)
  show ?case
  proof (cases i)
    case 0
    with Suc.prems show ?thesis by (simp add: pos_chain_from_0)
  next
    case (Suc j)
    with Suc.prems Suc.IH show ?thesis by simp
  qed
qed

lemma nextEpicylePos_rot:
  "nextEpicylePos t e = createVector (rot_x t (wave e) + x (pos e)) (rot_y t (wave e) + y (pos e))"
  unfolding nextEpicylePos_def Let_def rot_x_def rot_y_def ..

lemma x_createVector: "x (createVector a b) = a" and y_createVector: "y (createVector a b) = b"
  by (simp_all add: createVector_def)

lemma Vector_eqI: "x v = a \<Longrightarrow> y v = b \<Longrightarrow> v = createVector a b"
  by (cases v) (simp add: createVector_def)

lemma pos_chain_from_sum:
  "i < m \<Longrightarrow>
     x (pos (chain_from t wf' p k m ! i)) = x p + (\<Sum>j<i. rot_x t (wf' (k + j))) \<and>
     y (pos (chain_from t wf' p k m ! i)) = y p + (\<Sum>j<i. rot_y t (wf' (k + j)))"
proof (induction i)
  case 0
  then show ?case by (simp add: pos_chain_from_0)
next
  case (Suc i)
  then have i: "i < m" by simp
  have "pos (chain_from t wf' p k m ! Suc i) = nextEpicylePos t (chain_from t wf' p k m ! i)"
    using Suc.prems by (rule pos_chain_from_Suc)
  then show ?case
    using Suc.IH [OF i] nth_chain_from_wave [OF i, of t wf' p k]
    by (simp add: nextEpicylePos_rot x_createVector y_createVector)
qed

lemma tip_chain_from_sum:
  assumes "0 < m"
  shows "nextEpicylePos t (chain_from t wf' p k m ! (m - 1)) =
     createVector (x p + (\<Sum>j<m. rot_x t (wf' (k + j)))) (y p + (\<Sum>j<m. rot_y t (wf' (k + j))))"
proof -
  from assms obtain i where m: "m = Suc i" by (cases m) auto
  then have i: "i < m" by simp
  show ?thesis
    using pos_chain_from_sum [OF i, of t wf' p k] nth_chain_from_wave [OF i, of t wf' p k]
    unfolding m by (simp add: nextEpicylePos_rot ac_simps)
qed

lemma epicycles_example:
  "epicycles 0 2 squareWave =
     Some [\<lparr>pos = createVector 0 0,
            wave = \<lparr>amplitude = 4 * SCALE / pi, angularVelocity = 1, initialOffset = 0\<rparr>\<rparr>,
           \<lparr>pos = createVector (4 * SCALE / pi) 0, wave = squareWave 1\<rparr>]"
proof -
  have w0: "squareWave 0 = \<lparr>amplitude = 4 * SCALE / pi, angularVelocity = 1, initialOffset = 0\<rparr>"
    by (simp add: squareWave_def Let_def PI_def)
  have "epicycles 0 2 squareWave = Some (chain_from 0 squareWave (createVector 0 0) 0 (Suc (Suc 0)))"
    by (simp add: epicycles_chain numeral_2_eq_2)
  also have "chain_from 0 squareWave (createVector 0 0) 0 (Suc (Suc 0)) =
      [\<lparr>pos = createVector 0 0, wave = squareWave 0\<rparr>,
       \<lparr>pos = nextEpicylePos 0 \<lparr>pos = createVector 0 0, wave = squareWave 0\<rparr>,
        wave = squareWave 1\<rparr>]"
    by simp
  also have "nextEpicylePos 0 \<lparr>pos = createVector 0 0, wave = squareWave 0\<rparr>
      = createVector (4 * SCALE / pi) 0"
    unfolding w0 by (simp add: nextEpicylePos_def Let_def createVector_def)
  finally show ?thesis unfolding w0 .
qed

section \<open>The segments\<close>

lemma radialLines_loop_eq:
  "i \<le> length epis \<Longrightarrow>
     radialLines_loop t epis i radials
       = Inr (radials @ map (segment t epis) [i..<length epis])"
proof (induction t epis i radials rule: radialLines_loop.induct)
  case (1 t epis i radials)
  show ?case
  proof (cases "i < length epis")
    case False
    with 1(3) show ?thesis by (subst radialLines_loop.simps) simp
  next
    case True
    note lt = True
    have ix: "index epis (int i) = Inr (epis ! i)"
      using lt by (simp add: index_def)
    have upt: "[i..<length epis] = i # [i + 1..<length epis]"
      using lt by (simp add: upt_rec)
    show ?thesis
    proof (cases "int i = int (length epis) - 1")
      case True
      then have last: "Suc i = length epis" by simp
      let ?r = "\<lparr>p1 = pos (epis ! i), p2 = nextEpicylePos t (epis ! i)\<rparr>"
      have "radialLines_loop t epis i radials = radialLines_loop t epis (i + 1) (radials @ [?r])"
        using lt ix True by (subst radialLines_loop.simps) simp
      also have "\<dots> = Inr ((radials @ [?r]) @ map (segment t epis) [i + 1..<length epis])"
        using lt ix True by (intro "1.IH"(1)) auto
      finally show ?thesis using last upt by (simp add: segment_def)
    next
      case False
      then have nl: "Suc i < length epis" using lt by simp
      have ix1: "index epis (int i + 1) = Inr (epis ! Suc i)"
        using nl by (simp add: index_def nat_add_distrib)
      let ?r = "\<lparr>p1 = pos (epis ! i), p2 = pos (epis ! Suc i)\<rparr>"
      have "radialLines_loop t epis i radials = radialLines_loop t epis (i + 1) (radials @ [?r])"
        using lt ix ix1 False by (subst radialLines_loop.simps) simp
      also have "\<dots> = Inr ((radials @ [?r]) @ map (segment t epis) [i + 1..<length epis])"
        using lt ix ix1 False by (intro "1.IH"(2)) auto
      finally show ?thesis using nl upt by (simp add: segment_def)
    qed
  qed
qed

lemma radialLines_eq: "radialLines t epis = Inr (map (segment t epis) [0..<length epis])"
  using radialLines_loop_eq [of 0 epis t "[]"] by (simp add: radialLines_def)

section \<open>The trajectory buffer\<close>

lemma trajectory_push_take:
  "length traj \<le> c \<Longrightarrow> trajectory_push c v traj = take c (v # traj)"
proof (cases "length traj = c")
  case True
  then show ?thesis by (simp add: trajectory_push_def Let_def butlast_conv_take)
next
  case False
  assume "length traj \<le> c"
  with False have "length traj < c" by simp
  then show ?thesis by (simp add: trajectory_push_def Let_def)
qed

lemma length_trajectory_push: "length traj \<le> c \<Longrightarrow> length (trajectory_push c v traj) \<le> c"
  by (simp add: trajectory_push_take)

lemma take_append_take: "take c (xs @ take c ys) = take c (xs @ ys)"
  by (simp add: min_def)

lemma foldl_trajectory_push:
  "length traj \<le> c \<Longrightarrow>
     foldl (\<lambda>tr q. trajectory_push c q tr) traj vs = take c (rev vs @ traj)"
proof (induction vs arbitrary: traj)
  case Nil
  then show ?case by simp
next
  case (Cons v vs)
  have "foldl (\<lambda>tr q. trajectory_push c q tr) traj (v # vs)
      = foldl (\<lambda>tr q. trajectory_push c q tr) (trajectory_push c v traj) vs"
    by simp
  also have "\<dots> = take c (rev vs @ trajectory_push c v traj)"
    using Cons.prems by (intro Cons.IH length_trajectory_push)
  also have "\<dots> = take c (rev vs @ v # traj)"
    using Cons.prems by (simp only: trajectory_push_take take_append_take)
  finally show ?case by simp
qed

lemma map_trajectory_push:
  "map f (trajectory_push c v traj) = trajectory_push c (f v) (map f traj)"
  by (simp add: trajectory_push_def Let_def map_butlast)

lemma set_trajectory_push: "q \<in> set (trajectory_push c v traj) \<Longrightarrow> q = v \<or> q \<in> set traj"
  by (auto simp: trajectory_push_def Let_def dest: in_set_butlastD split: if_splits)

section \<open>The frame\<close>

lemma frame_geometry:
  assumes "1 \<le> n"
  shows "\<exists>epis radials r. epicycles t n wf' = Some epis \<and> radialLines t epis = Inr radials \<and>
      index radials (int (length radials) - 1) = Inr r \<and> p2 r = pencil_tip t n wf'"
proof -
  define m where "m = nat n"
  define epis where "epis = chain_from t wf' (createVector 0 0) 0 m"
  define radials where "radials = map (segment t epis) [0..<length epis]"
  have m: "0 < m" "int m = n" using assms by (simp_all add: m_def)
  have len: "length epis = m" by (simp add: epis_def length_chain_from)
  have e: "epicycles t n wf' = Some epis"
    using assms by (simp add: epicycles_chain epis_def m_def)
  have r: "radialLines t epis = Inr radials"
    by (simp add: radialLines_eq radials_def)
  have ix: "index radials (int (length radials) - 1) = Inr (radials ! (m - 1))"
    using m(1) by (simp add: index_def radials_def len nat_diff_distrib')
  have "p2 (radials ! (m - 1)) = nextEpicylePos t (epis ! (m - 1))"
    using m by (simp add: radials_def len segment_def)
  also have "\<dots> = pencil_tip t n wf'"
    using tip_chain_from_sum [OF m(1), of t wf' "createVector 0 0" 0]
    by (simp add: epis_def x_createVector y_createVector pencil_tip_def m_def)
  finally show ?thesis using e r ix by blast
qed

text \<open>With no octaves there is no segment, and reading the last one throws.\<close>

lemma draw_zero_octaves: "draw 0 wf' s = Some (Inl TypeError)"
  by (simp add: draw_def epicycles_chain radialLines_eq index_def)

lemma draw_eq:
  assumes "1 \<le> octaves"
  shows "draw octaves wf' s =
     Some (Inr \<lparr>time = incrementTime (time s) DT,
                trajectory = trajectory_push 512 (pencil_tip (time s) octaves (waveForm wf'))
                   (if wf' \<noteq> wfPrevious s then [] else trajectory s),
                wfPrevious = wf'\<rparr>)"
proof -
  from frame_geometry [OF assms, of "time s" "waveForm wf'"]
  obtain epis radials r where "epicycles (time s) octaves (waveForm wf') = Some epis"
    "radialLines (time s) epis = Inr radials"
    "index radials (int (length radials) - 1) = Inr r"
    "p2 r = pencil_tip (time s) octaves (waveForm wf')"
    by blast
  then show ?thesis by (simp add: draw_def)
qed

lemma draw_traced_eq:
  assumes "1 \<le> octaves"
  shows "draw_traced octaves wf' ts =
     Some (Inr \<lparr>ttime = incrementTime (ttime ts) DT,
                ttrajectory =
                  trajectory_push 512 (wf', pencil_tip (ttime ts) octaves (waveForm wf'))
                   (if wf' \<noteq> twfPrevious ts then [] else ttrajectory ts),
                twfPrevious = wf'\<rparr>)"
proof -
  from frame_geometry [OF assms, of "ttime ts" "waveForm wf'"]
  obtain epis radials r where "epicycles (ttime ts) octaves (waveForm wf') = Some epis"
    "radialLines (ttime ts) epis = Inr radials"
    "index radials (int (length radials) - 1) = Inr r"
    "p2 r = pencil_tip (ttime ts) octaves (waveForm wf')"
    by blast
  then show ?thesis by (simp add: draw_traced_def)
qed

lemma draw_untrace:
  "draw octaves wf' (untrace ts) = map_option (map_sum id untrace) (draw_traced octaves wf' ts)"
  by (simp add: draw_def draw_traced_def untrace_def map_trajectory_push
      split: option.splits sum.splits)

lemma run_untrace:
  "run ins (untrace ts) = map_option (map_sum id untrace) (run_traced ins ts)"
proof (induction ins arbitrary: ts)
  case Nil
  show ?case by simp
next
  case (Cons a ins)
  obtain octaves wf' where a: "a = (octaves, wf')" by (cases a)
  show ?case
    unfolding a by (simp add: draw_untrace Cons.IH split: option.splits sum.splits)
qed

lemma draw_traced_tags:
  assumes d: "draw_traced octaves wf' ts = Some (Inr ts')"
    and inv: "\<forall>q \<in> set (ttrajectory ts). fst q = twfPrevious ts"
  shows "\<forall>q \<in> set (ttrajectory ts'). fst q = twfPrevious ts'"
proof -
  from d obtain v where tr: "ttrajectory ts' =
      trajectory_push 512 (wf', v) (if wf' \<noteq> twfPrevious ts then [] else ttrajectory ts)"
    and prev: "twfPrevious ts' = wf'"
    by (auto simp: draw_traced_def split: option.splits sum.splits)
  show ?thesis
  proof
    fix q
    assume "q \<in> set (ttrajectory ts')"
    then have "q = (wf', v)
        \<or> q \<in> set (if wf' \<noteq> twfPrevious ts then [] else ttrajectory ts)"
      unfolding tr by (rule set_trajectory_push)
    then show "fst q = twfPrevious ts'"
      using inv prev by (auto split: if_splits)
  qed
qed

lemma run_traced_tags:
  assumes "run_traced ins ts = Some (Inr ts')"
    and "\<forall>q \<in> set (ttrajectory ts). fst q = twfPrevious ts"
  shows "\<forall>q \<in> set (ttrajectory ts'). fst q = twfPrevious ts'"
  using assms
proof (induction ins arbitrary: ts)
  case Nil
  then show ?case by simp
next
  case (Cons a ins)
  obtain octaves wf' where a: "a = (octaves, wf')" by (cases a)
  from Cons.prems(1) obtain ts1 where d: "draw_traced octaves wf' ts = Some (Inr ts1)"
    and r: "run_traced ins ts1 = Some (Inr ts')"
    unfolding a by (auto split: option.splits sum.splits)
  from draw_traced_tags [OF d Cons.prems(2)] Cons.IH [OF r] show ?case by blast
qed

lemma draw_change_clears:
  assumes "draw octaves wf' s = Some (Inr s')" and "wf' \<noteq> wfPrevious s"
  shows "\<exists>epis radials r. epicycles (time s) octaves (waveForm wf') = Some epis \<and>
      radialLines (time s) epis = Inr radials \<and>
      index radials (int (length radials) - 1) = Inr r \<and>
      trajectory s' = [p2 r] \<and> wfPrevious s' = wf'"
  using assms
  by (auto simp: draw_def trajectory_push_def split: option.splits sum.splits)


section \<open>The claims\<close>

text \<open>
  C1. For every time \<open>t\<close>, every generator and every \<open>n \<ge> 1\<close>, the chain that the builder
  returns obeys the positional recurrence: epicycle 0 is centred at \<open>(0, 0)\<close>, the epicycle
  of octave \<open>o\<close> carries the wave of \<open>o\<close>, and the centre of the next epicycle is
  \<open>(a cos (- \<theta>) + c.x, a sin (- \<theta>) + c.y)\<close> for the amplitude \<open>a\<close> of that wave, the
  centre \<open>c\<close> of epicycle \<open>o\<close> and \<open>\<theta> = t * angularVelocity + initialOffset\<close>. In
  particular the chain for \<open>t = 0\<close>, \<open>n = 2\<close> and the square wave is: epicycle 0 at
  \<open>(0, 0)\<close> with the wave \<open>(4 A / \<pi>, 1, 0)\<close>, epicycle 1 at \<open>(4 A / \<pi>, 0)\<close>.
\<close>

theorem epicycles_recurrence:
  assumes "1 \<le> n"
  shows "(\<exists>epis. epicycles t n wf' = Some epis \<and> pos (epis ! 0) = createVector 0 0 \<and>
      (\<forall>o'. int o' < n \<longrightarrow> wave (epis ! o') = wf' o') \<and>
      (\<forall>o'. int o' + 1 < n \<longrightarrow>
         pos (epis ! (o' + 1)) = nextEpicylePos t (epis ! o') \<and>
         pos (epis ! (o' + 1)) =
           createVector
             (amplitude (wf' o')
                * cos (- (t * angularVelocity (wf' o') + initialOffset (wf' o')))
              + x (pos (epis ! o')))
             (amplitude (wf' o')
                * sin (- (t * angularVelocity (wf' o') + initialOffset (wf' o')))
              + y (pos (epis ! o'))))) \<and>
    epicycles 0 2 squareWave =
      Some [\<lparr>pos = createVector 0 0,
             wave = \<lparr>amplitude = 4 * SCALE / pi, angularVelocity = 1, initialOffset = 0\<rparr>\<rparr>,
            \<lparr>pos = createVector (4 * SCALE / pi) 0, wave = squareWave 1\<rparr>]"
proof -
  define m where "m = nat n"
  define epis where "epis = chain_from t wf' (createVector 0 0) 0 m"
  have m: "0 < m" "int m = n" using assms by (simp_all add: m_def)
  have e: "epicycles t n wf' = Some epis"
    using assms by (simp add: epicycles_chain epis_def m_def)
  have p0: "pos (epis ! 0) = createVector 0 0"
    using m by (simp add: epis_def pos_chain_from_0)
  have w: "wave (epis ! k) = wf' k" if "int k < n" for k
    using that m nth_chain_from_wave [of k m t wf' "createVector 0 0" 0] by (simp add: epis_def)
  have s: "pos (epis ! (k + 1)) = nextEpicylePos t (epis ! k) \<and>
         pos (epis ! (k + 1)) =
           createVector
             (amplitude (wf' k) * cos (- (t * angularVelocity (wf' k) + initialOffset (wf' k)))
              + x (pos (epis ! k)))
             (amplitude (wf' k) * sin (- (t * angularVelocity (wf' k) + initialOffset (wf' k)))
              + y (pos (epis ! k)))" if "int k + 1 < n" for k
  proof -
    from that m have k: "Suc k < m" by linarith
    then have "int k < n" using m by linarith
    then have wk: "wave (epis ! k) = wf' k" by (rule w)
    have "pos (epis ! (k + 1)) = nextEpicylePos t (epis ! k)"
      using pos_chain_from_Suc [OF k, of t wf' "createVector 0 0" 0] by (simp add: epis_def)
    then show ?thesis
      unfolding nextEpicylePos_rot wk rot_x_def rot_y_def by simp
  qed
  from e p0 w s epicycles_example show ?thesis by blast
qed

theorem epicycles_recurrence_witness:
  "\<exists>epis. epicycles 0 2 squareWave = Some epis \<and> pos (epis ! 0) = createVector 0 0 \<and>
     wave (epis ! 0) = squareWave 0 \<and> wave (epis ! 1) = squareWave 1 \<and>
     pos (epis ! 1) = nextEpicylePos 0 (epis ! 0)"
proof -
  obtain epis where e: "epicycles 0 2 squareWave = Some epis" "pos (epis ! 0) = createVector 0 0"
    and w: "\<And>k. int k < 2 \<Longrightarrow> wave (epis ! k) = squareWave k"
    and s: "\<And>k. int k + 1 < 2 \<Longrightarrow> pos (epis ! (k + 1)) = nextEpicylePos 0 (epis ! k)"
    using epicycles_recurrence [of 2 0 squareWave] by auto
  from e w [of 0] w [of 1] s [of 0] show ?thesis by simp
qed


text \<open>
  C2. For every time \<open>t\<close>, every generator and every integer \<open>n\<close> from 0 to 24, the
  chain builder returns a list of exactly \<open>n\<close> epicycles (not \<open>n + 1\<close>), in octave
  order: the epicycle at index \<open>i\<close> carries the wave of octave \<open>i\<close>, octave 0 first.
\<close>

theorem epicycles_returns_n:
  assumes "0 \<le> n" and "n \<le> 24"
  shows "\<exists>epis. epicycles t n wf' = Some epis \<and> int (length epis) = n
           \<and> map wave epis = map wf' [0..<length epis]"
  using assms(1) by (simp add: epicycles_chain length_chain_from wave_chain_from)

theorem epicycles_returns_n_witness:
  "\<exists>epis. epicycles 0 24 squareWave = Some epis \<and> int (length epis) = 24
           \<and> map wave epis = map squareWave [0..<length epis]"
  using epicycles_returns_n [of 24 0 squareWave] by simp

text \<open>
  C3. For every time \<open>t\<close> and every list \<open>epis\<close> of \<open>n\<close> epicycles, \<open>radialLines\<close>
  returns (without throwing) exactly \<open>n\<close> segments; segment \<open>i\<close> starts at the centre of
  \<open>epis[i]\<close> and ends at the centre of \<open>epis[i + 1]\<close> when \<open>i < n - 1\<close>; the last
  segment ends at the next position of \<open>epis[n - 1]\<close>, computed by \<open>nextEpicylePos\<close>, the
  function by which the chain builder places each next centre.
\<close>

theorem radialLines_segments:
  "\<exists>radials. radialLines t epis = Inr radials \<and> length radials = length epis \<and>
     (\<forall>i < length epis.
        p1 (radials ! i) = pos (epis ! i) \<and>
        p2 (radials ! i) =
          (if int i < int (length epis) - 1 then pos (epis ! (i + 1))
           else nextEpicylePos t (epis ! i)))"
proof -
  have "\<forall>i < length epis.
      p2 (segment t epis i) =
        (if int i < int (length epis) - 1 then pos (epis ! (i + 1))
         else nextEpicylePos t (epis ! i))"
    by (auto simp: segment_def)
  then show ?thesis
    by (simp add: radialLines_eq) (simp add: segment_def)
qed

theorem radialLines_segments_witness:
  "\<exists>radials.
     radialLines 0 [\<lparr>pos = createVector 0 0, wave = squareWave 0\<rparr>,
                    \<lparr>pos = createVector 1 2, wave = squareWave 1\<rparr>] = Inr radials \<and>
     length radials = 2 \<and>
     p1 (radials ! 0) = createVector 0 0 \<and> p2 (radials ! 0) = createVector 1 2 \<and>
     p1 (radials ! 1) = createVector 1 2 \<and>
     p2 (radials ! 1) = createVector (amplitude (squareWave 1) + 1) 2"
proof -
  let ?e0 = "\<lparr>pos = createVector 0 0, wave = squareWave 0\<rparr>"
  let ?e1 = "\<lparr>pos = createVector 1 2, wave = squareWave 1\<rparr>"
  obtain radials where r: "radialLines 0 [?e0, ?e1] = Inr radials" "length radials = 2"
    and all: "\<And>i. i < 2 \<Longrightarrow>
        p1 (radials ! i) = pos ([?e0, ?e1] ! i) \<and>
        p2 (radials ! i) =
          (if int i < int (length [?e0, ?e1]) - 1 then pos ([?e0, ?e1] ! (i + 1))
           else nextEpicylePos 0 ([?e0, ?e1] ! i))"
    using radialLines_segments [of 0 "[?e0, ?e1]"] by auto
  have n1: "nextEpicylePos 0 ?e1 = createVector (amplitude (squareWave 1) + 1) 2"
    by (simp add: nextEpicylePos_def Let_def squareWave_def createVector_def)
  from all [of 0] have a0: "p1 (radials ! 0) = createVector 0 0"
      "p2 (radials ! 0) = createVector 1 2"
    by simp_all
  from all [of 1] n1 have a1: "p1 (radials ! 1) = createVector 1 2"
      "p2 (radials ! 1) = createVector (amplitude (squareWave 1) + 1) 2"
    by simp_all
  from r a0 a1 show ?thesis by simp
qed

text \<open>
  C6, as the sketch has it. For \<open>n = 0\<close> the chain builder returns the empty chain and
  \<open>radialLines\<close> returns the empty list of segments for it, without throwing. For
  \<open>n < 0\<close> the builder does not return: the array length starts at 0 and only grows,
  so it never equals \<open>n\<close>.
\<close>

theorem epicycles_nonpositive:
  "epicycles t 0 wf' = Some [] \<and> radialLines t [] = Inr [] \<and>
   (n < 0 \<longrightarrow> epicycles t n wf' = None)"
  by (simp add: epicycles_negative epicycles_chain radialLines_eq)

theorem epicycles_nonpositive_witness:
  "epicycles 0 0 squareWave = Some [] \<and> radialLines 0 [] = Inr [] \<and>
   epicycles 0 (- 3) squareWave = None"
  using epicycles_nonpositive [of 0 squareWave "- 3"] by simp

text \<open>C6 as the specification states it, an empty chain for every \<open>n \<le> 0\<close>,
  fails at \<open>n = - 1\<close>.\<close>

theorem epicycles_negative_counterexample:
  "epicycles 0 (- 1) squareWave \<noteq> Some []"
  by (simp add: epicycles_negative)

text \<open>
  C8. A name that is none of \<open>square\<close>, \<open>sawtooth\<close> and \<open>sin\<close> resolves to the square-wave
  generator; in particular \<open>unknown\<close> resolves to the generator that \<open>square\<close> resolves to.
\<close>

theorem waveForm_unknown_is_square:
  "(name \<noteq> ''square'' \<and> name \<noteq> ''sawtooth'' \<and> name \<noteq> ''sin''
      \<longrightarrow> waveForm name = squareWave) \<and>
   waveForm ''unknown'' = waveForm ''square''"
  by (simp add: waveForm_def wfs_def)

theorem waveForm_unknown_is_square_witness:
  "waveForm ''triangle'' = squareWave"
  using waveForm_unknown_is_square [of "''triangle''"] by simp

text \<open>
  C10. For every octave whose harmonic index \<open>k = 2 (o + 1)\<close> fits a signed 32-bit
  integer, the generator registered as \<open>sin\<close> returns the angular velocity 2: the literal
  \<open>2.71\<close> truncates to 2, and \<open>k XOR (2 XOR k) = 2\<close> on 32-bit integers.
\<close>

theorem lolWave_angularVelocity_constant:
  assumes "2 * (int o' + 1) < 2 ^ 31"
  shows "angularVelocity (waveForm ''sin'' o') = 2 \<and> ToInt32 2.71 = 2 \<and>
         ToInt32 (2 * (real o' + 1)) XOR (2 XOR ToInt32 (2 * (real o' + 1))) = 2"
  by (simp add: waveForm_def wfs_def lolWave_angularVelocity_2 xor_cancel)
     (simp add: ToInt32_def js_trunc_def)

theorem lolWave_angularVelocity_constant_witness:
  "angularVelocity (waveForm ''sin'' 11) = 2 \<and> angularVelocity (waveForm ''sin'' 0) = 2"
  using lolWave_angularVelocity_constant [of 11] lolWave_angularVelocity_constant [of 0]
  by simp

text \<open>
  C5. The generator registered as \<open>sin\<close> is claimed to return, with \<open>k = 2 (o + 1)\<close>, the
  amplitude \<open>4 A / (k \<pi>)\<close>, the initial offset 0 and the angular velocity that combines
  \<open>k\<close> bitwise with the power \<open>2.71\<close> raised to \<open>k\<close>. The amplitude and the offset are
  as claimed for every octave. The angular velocity is not: the source writes the power
  with \<open>^\<close>, which is the bitwise exclusive or, so \<open>2.71\<close> is truncated to 2 and combined
  with \<open>k\<close> bit by bit. At octave 0 the generator returns 2, where the claimed value is
  \<open>2 XOR 7 = 5\<close>, the power being \<open>7.3441\<close>.
\<close>

theorem lolWave_angularVelocity_at_octave_0:
  "angularVelocity (waveForm ''sin'' 0) = 2 \<and>
   overtone_angularVelocity_spec 0 = 5 \<and>
   amplitude (waveForm ''sin'' o') = 4 * SCALE / (2 * (real o' + 1) * pi) \<and>
   initialOffset (waveForm ''sin'' o') = 0"
proof -
  have "waveForm ''sin'' = lolWave" by (simp add: waveForm_def wfs_def)
  moreover have "amplitude (lolWave o') = 4 * SCALE / (2 * (real o' + 1) * pi)"
    by (simp add: lolWave_def Let_def PI_def)
  moreover have "initialOffset (lolWave o') = 0"
    by (simp add: lolWave_def Let_def)
  ultimately show ?thesis
    by (simp only: lolWave_angularVelocity_2 overtone_angularVelocity_spec_0 simp_thms)
qed

text \<open>
  C9. For every time \<open>t\<close>, every generator and every \<open>n \<ge> 1\<close>, the segments of the chain
  built for \<open>t\<close>, \<open>n\<close> and the generator are connected, each segment ending where the next
  starts, and the end of the last segment, the pencil tip, is the componentwise sum of
  the rotation vectors \<open>(a cos (- \<theta>), a sin (- \<theta>))\<close> of the octaves \<open>0\<close> to \<open>n - 1\<close>.
\<close>

theorem pencil_tip_partial_sum:
  assumes "1 \<le> n"
  shows "\<exists>epis radials.
     epicycles t n wf' = Some epis \<and> radialLines t epis = Inr radials \<and>
     int (length radials) = n \<and>
     (\<forall>i. int i < n - 1 \<longrightarrow> p2 (radials ! i) = p1 (radials ! (i + 1))) \<and>
     p2 (radials ! (nat n - 1)) =
       createVector
         (\<Sum>o' < nat n. amplitude (wf' o')
             * cos (- (t * angularVelocity (wf' o') + initialOffset (wf' o'))))
         (\<Sum>o' < nat n. amplitude (wf' o')
             * sin (- (t * angularVelocity (wf' o') + initialOffset (wf' o'))))"
proof -
  define m where "m = nat n"
  define epis where "epis = chain_from t wf' (createVector 0 0) 0 m"
  define radials where "radials = map (segment t epis) [0..<length epis]"
  have m: "0 < m" "int m = n" using assms by (simp_all add: m_def)
  have len: "length epis = m" by (simp add: epis_def length_chain_from)
  have e: "epicycles t n wf' = Some epis"
    using assms by (simp add: epicycles_chain epis_def m_def)
  have r: "radialLines t epis = Inr radials"
    by (simp add: radialLines_eq radials_def)
  have l: "int (length radials) = n"
    using m by (simp add: radials_def len)
  have c: "p2 (radials ! i) = p1 (radials ! (i + 1))" if "int i < n - 1" for i
  proof -
    from that m have "Suc i < m" by linarith
    then show ?thesis by (simp add: radials_def len segment_def)
  qed
  have "p2 (radials ! (m - 1)) = nextEpicylePos t (epis ! (m - 1))"
    using m by (simp add: radials_def len segment_def)
  also have "\<dots> = createVector (\<Sum>j<m. rot_x t (wf' j)) (\<Sum>j<m. rot_y t (wf' j))"
    using tip_chain_from_sum [OF m(1), of t wf' "createVector 0 0" 0]
    by (simp add: epis_def x_createVector y_createVector)
  finally have tip: "p2 (radials ! (nat n - 1)) =
      createVector (\<Sum>j<nat n. rot_x t (wf' j)) (\<Sum>j<nat n. rot_y t (wf' j))"
    by (simp add: m_def)
  from e r l c tip show ?thesis unfolding rot_x_def rot_y_def by blast
qed

theorem pencil_tip_partial_sum_witness:
  "\<exists>epis radials.
     epicycles 0 2 squareWave = Some epis \<and> radialLines 0 epis = Inr radials \<and>
     int (length radials) = 2 \<and> p2 (radials ! 0) = p1 (radials ! 1) \<and>
     p2 (radials ! 1) = createVector (276 / pi + 92 / pi) 0"
proof -
  have s: "(\<Sum>o' < nat 2. amplitude (squareWave o')
             * cos (- (0 * angularVelocity (squareWave o') + initialOffset (squareWave o'))))
       = 276 / pi + 92 / pi"
      "(\<Sum>o' < nat 2. amplitude (squareWave o')
             * sin (- (0 * angularVelocity (squareWave o') + initialOffset (squareWave o'))))
       = 0"
    by (simp_all add: numeral_2_eq_2 squareWave_def Let_def SCALE_def PI_def)
  show ?thesis
    using pencil_tip_partial_sum [of 2 0 squareWave] unfolding s
    by (auto simp: numeral_2_eq_2)
qed


text \<open>
  C4. A push onto a trajectory of at most \<open>c\<close> points leaves at most \<open>c\<close> points. It puts
  the new point at the front; when the trajectory is full it removes exactly one point,
  the last one, and keeps the others in their order. After any sequence of pushes the
  trajectory holds the most recent points, newest first, cut off at \<open>c\<close>: the point
  removed is always the oldest one still present. The frame pushes its pencil tip in this
  way with \<open>c = 512\<close>.
\<close>

theorem trajectory_bounded_fifo:
  assumes "length traj \<le> c"
  shows "length (trajectory_push c v traj) \<le> c \<and>
     (length traj < c \<longrightarrow> trajectory_push c v traj = v # traj) \<and>
     (length traj = c \<and> 0 < c \<longrightarrow>
        trajectory_push c v traj = v # butlast traj \<and> butlast traj @ [last traj] = traj) \<and>
     foldl (\<lambda>tr q. trajectory_push c q tr) traj vs = take c (rev vs @ traj) \<and>
     length (foldl (\<lambda>tr q. trajectory_push c q tr) traj vs) \<le> c \<and>
     (draw octaves wf' s = Some (Inr s') \<longrightarrow>
        (\<exists>tip. trajectory s' =
           trajectory_push 512 tip (if wf' \<noteq> wfPrevious s then [] else trajectory s)))"
proof -
  have a: "length (trajectory_push c v traj) \<le> c"
    using assms by (rule length_trajectory_push)
  have b: "length traj < c \<longrightarrow> trajectory_push c v traj = v # traj"
    by (simp add: trajectory_push_def Let_def)
  have c: "length traj = c \<and> 0 < c \<longrightarrow>
        trajectory_push c v traj = v # butlast traj \<and> butlast traj @ [last traj] = traj"
    by (auto simp: trajectory_push_def Let_def)
  have d: "foldl (\<lambda>tr q. trajectory_push c q tr) traj vs = take c (rev vs @ traj)"
    using assms by (rule foldl_trajectory_push)
  have e: "length (foldl (\<lambda>tr q. trajectory_push c q tr) traj vs) \<le> c"
    unfolding d by simp
  have f: "draw octaves wf' s = Some (Inr s') \<longrightarrow>
        (\<exists>tip. trajectory s' =
           trajectory_push 512 tip (if wf' \<noteq> wfPrevious s then [] else trajectory s))"
    by (auto simp: draw_def split: option.splits sum.splits)
  from a b c d e f show ?thesis by blast
qed

theorem trajectory_bounded_fifo_witness:
  "trajectory_push 2 (3 :: nat) [2, 1] = [3, 2] \<and>
   trajectory_push 2 (2 :: nat) [1] = [2, 1] \<and>
   foldl (\<lambda>tr q. trajectory_push 2 q tr) [] [1, 2, 3, 4 :: nat] = [4, 3] \<and>
   (\<exists>s' tip. draw 2 ''square'' initial_state = Some (Inr s') \<and> trajectory s' = [tip])"
proof -
  obtain s' where s': "draw 2 ''square'' initial_state = Some (Inr s')"
    by (simp add: draw_eq)
  have "\<exists>tip. trajectory s' = [tip]"
    using trajectory_bounded_fifo [of "[]" 0 "0 :: nat" "[]" 2 "''square''" initial_state s'] s'
    by (simp add: initial_state_def trajectory_push_def)
  with s' show ?thesis
    using trajectory_bounded_fifo [of "[2, 1]" 2 "3 :: nat" "[]" 2 "''square''" initial_state s']
      trajectory_bounded_fifo [of "[1]" 2 "2 :: nat" "[]" 2 "''square''" initial_state s']
      trajectory_bounded_fifo [of "[]" 2 "0 :: nat" "[1, 2, 3, 4]" 2 "''square''" initial_state s']
    by simp
qed

text \<open>
  C7. A frame whose waveform identifier differs from the previous frame's leaves exactly
  one point in the trajectory, the pencil tip of that frame: the trajectory was emptied
  before the push. Hence, in every state that a session reaches, all points of the
  trajectory were traced under the identifier of the last frame; this is stated on the
  instrumented step, which \<open>untrace\<close> maps to the step itself.
\<close>

theorem trajectory_single_waveform:
  "(draw octaves wf' s = Some (Inr s') \<and> wf' \<noteq> wfPrevious s \<longrightarrow>
      (\<exists>epis radials r.
         epicycles (time s) octaves (waveForm wf') = Some epis \<and>
         radialLines (time s) epis = Inr radials \<and>
         index radials (int (length radials) - 1) = Inr r \<and>
         trajectory s' = [p2 r] \<and> wfPrevious s' = wf')) \<and>
   (run_traced ins ts = Some (Inr ts') \<and>
    (\<forall>q \<in> set (ttrajectory ts). fst q = twfPrevious ts) \<longrightarrow>
      run ins (untrace ts) = Some (Inr (untrace ts')) \<and>
      (\<forall>q \<in> set (ttrajectory ts'). fst q = twfPrevious ts'))"
proof -
  have "run ins (untrace ts) = Some (Inr (untrace ts'))"
    if "run_traced ins ts = Some (Inr ts')"
    using that by (simp add: run_untrace)
  then show ?thesis
    using draw_change_clears [of octaves wf' s s'] run_traced_tags [of ins ts ts']
    by blast
qed

theorem trajectory_single_waveform_witness:
  "(\<exists>s' tip. draw 2 ''sin'' initial_state = Some (Inr s') \<and> trajectory s' = [tip]) \<and>
   (\<exists>ts'. run_traced [(2, ''sin''), (3, ''sin''), (2, ''sawtooth'')] initial_traced
             = Some (Inr ts') \<and>
      run [(2, ''sin''), (3, ''sin''), (2, ''sawtooth'')] initial_state
        = Some (Inr (untrace ts')) \<and>
      map fst (ttrajectory ts') = [''sawtooth''] \<and> twfPrevious ts' = ''sawtooth'')"
proof -
  let ?ins = "[(2, ''sin''), (3, ''sin''), (2, ''sawtooth'')]"
  obtain s' where s': "draw 2 ''sin'' initial_state = Some (Inr s')"
    by (simp add: draw_eq)
  have ne: "''sin'' \<noteq> wfPrevious initial_state"
    by (simp add: initial_state_def)
  obtain ts' where ts': "run_traced ?ins initial_traced = Some (Inr ts')"
    and tags: "map fst (ttrajectory ts') = [''sawtooth'']" "twfPrevious ts' = ''sawtooth''"
    by (simp add: draw_traced_eq initial_traced_def trajectory_push_def)
  have inv: "\<forall>q \<in> set (ttrajectory initial_traced). fst q = twfPrevious initial_traced"
    by (simp add: initial_traced_def)
  have u: "untrace initial_traced = initial_state"
    by (simp add: untrace_def initial_traced_def initial_state_def)
  note inst = trajectory_single_waveform [of 2 "''sin''" initial_state s' ?ins initial_traced ts']
  from inst [THEN conjunct1, rule_format, OF conjI [OF s' ne]]
  obtain tip where "trajectory s' = [tip]" by auto
  with s' have first: "\<exists>s' tip. draw 2 ''sin'' initial_state = Some (Inr s') \<and> trajectory s' = [tip]"
    by blast
  from inst [THEN conjunct2, rule_format, OF conjI [OF ts' inv]]
  have "run ?ins (untrace initial_traced) = Some (Inr (untrace ts'))"
    by simp
  then have "run ?ins initial_state = Some (Inr (untrace ts'))"
    unfolding u .
  with ts' tags first show ?thesis by auto
qed

end
